theory Spec2Isabelle
  imports Complex_Main
begin

section \<open>The trivia game of src/trivia/game.py\<close>

text \<open>
  The game object of \<^verbatim>\<open>TriviaGame\<close> is a record with one field for each attribute the
  class assigns. Times (\<^verbatim>\<open>time.time()\<close>, \<^verbatim>\<open>datetime.now()\<close>) are real numbers read from
  one clock; every function that reads the clock takes the reading \<open>now\<close> as an argument.
  An exception of the source is a value \<open>Inl e\<close> of the result.
\<close>

subsection \<open>Constants\<close>

datatype phase = STATE_IDLE | STATE_QUESTION | STATE_WAITING | STATE_LOCKED

definition ROUND_TIME :: real where
  "ROUND_TIME = 45"

definition WAIT_TIME :: real where
  "WAIT_TIME = 10"

definition INACTIVITY_TIMEOUT :: real where
  "INACTIVITY_TIMEOUT = ROUND_TIME * 4"

definition STREAK_STEPS :: int where
  "STREAK_STEPS = 5"

definition HINT_TIMING :: real where
  "HINT_TIMING = 10"

definition HINT_COOLDOWN :: real where
  "HINT_COOLDOWN = 5 / 2"

definition HINT_MAX :: int where
  "HINT_MAX = 3"

subsection \<open>Data\<close>

datatype error = AttributeError | TypeError | IndexError

text \<open>A chat participant, the dict with the keys \<^verbatim>\<open>id\<close>, \<^verbatim>\<open>name\<close> and \<^verbatim>\<open>permissions\<close>.\<close>

record player =
  p_id :: nat
  p_name :: string
  permissions :: int

text \<open>
  The entities of \<^verbatim>\<open>models.py\<close>, which is not among the sources: the fields are those
  \<^verbatim>\<open>game.py\<close> reads (\<^verbatim>\<open>round.id\<close>, \<^verbatim>\<open>round.question.question\<close>, \<^verbatim>\<open>round.solved\<close>, ...)
  and those the specification lists for the round record. The points of a solved round
  are computed by the store and are left out.
\<close>

record question =
  category_names :: string
  question_text :: string
  primary_answer :: string

record round_rec =
  round_id :: nat
  round_question :: question
  start_time :: real
  solved :: bool
  solver :: "string option"
  time_taken :: "real option"
  round_hints :: int
  round_streak :: int
  ended :: bool

text \<open>The dicts \<^verbatim>\<open>self.hints\<close> and \<^verbatim>\<open>self.streak\<close>.\<close>

record hints_rec =
  hint_count :: int
  hint_current :: "string option"
  hint_time :: real
  hint_cooldown :: real

record streak_rec =
  streak_count :: int
  streak_player_name :: "string option"
  streak_player_id :: "nat option"

text \<open>
  What \<^verbatim>\<open>get_round_info\<close> returns, before it is rendered as HTML: the \<^verbatim>\<open>game\<close> entry is one
  of five views with the values that are formatted into it, the \<^verbatim>\<open>timer\<close> entry is empty
  or a bar with its width and the time left.
\<close>

datatype game_view =
    Question_view nat string string "string option"
  | Solved_view nat string real string string
  | Timeup_view nat string string
  | Idle_view
  | Locked_view

record timer_view =
  colorless :: bool
  width :: real
  time_left :: real

record info =
  info_game :: game_view
  info_timer :: "timer_view option"

text \<open>The messages handed to \<^verbatim>\<open>self.broadcast\<close>.\<close>

datatype notice =
    New_round_starting real
  | Stop_notice string
  | Streak_reached string int bool
  | Streak_broken string "string option" int

datatype message = System notice | Setinfo info

text \<open>
  A task of the event loop that sleeps: \<^verbatim>\<open>round_timeout\<close> in its \<^verbatim>\<open>asyncio.sleep(ROUND_TIME)\<close>
  or \<^verbatim>\<open>delay_new_round\<close> in its \<^verbatim>\<open>asyncio.sleep(wait)\<close>. A task is known by its handle (the
  value \<^verbatim>\<open>asyncio.async\<close> returns) and carries the time at which its sleep ends.
\<close>

datatype timer_kind = Round_timeout | Delay_new_round

record game =
  state :: phase
  last_action :: real
  timeout :: "nat option"
  timer_start :: "real option"
  cur_round :: "round_rec option"
  round_start :: "real option"
  player_count :: int
  hints :: hints_rec
  streak :: streak_rec
  tasks :: "(nat \<times> timer_kind \<times> real) list"
  next_task :: nat
  rounds_made :: nat
  sent :: "message list"

text \<open>
  The collaborators \<^verbatim>\<open>game.py\<close> calls and does not define are parameters: the choice of
  the next question by the store (\<open>None\<close> when \<^verbatim>\<open>Round.new\<close> raises \<^verbatim>\<open>IndexError\<close>),
  \<^verbatim>\<open>question.check_answer\<close>, \<^verbatim>\<open>question.get_hint\<close>, \<^verbatim>\<open>Player.has_perm\<close>, the attribute names
  every Python object has, and what calling such an attribute does (\<open>Some e\<close> when it
  raises \<open>e\<close>).
\<close>

record collab =
  pick_question :: "real \<Rightarrow> nat \<Rightarrow> question option"
  check_answer :: "question \<Rightarrow> string \<Rightarrow> bool"
  get_hint_text :: "question \<Rightarrow> int \<Rightarrow> string"
  has_perm :: "nat \<Rightarrow> string \<Rightarrow> bool"
  object_attr :: "string \<Rightarrow> bool"
  call_attr :: "string \<Rightarrow> string list \<Rightarrow> error option"

subsection \<open>The persistence layer\<close>

definition Round_new :: "collab \<Rightarrow> real \<Rightarrow> real \<Rightarrow> nat \<Rightarrow> round_rec option" where
  \<comment> \<open>Modelled from the spec: \<^verbatim>\<open>Round.new\<close> of \<^verbatim>\<open>models.py\<close> is missing. The round record is
      created when a round starts: a new id, a question of the store, the start time,
      not solved. \<open>n\<close> is the number of rounds created before.\<close>
  "Round_new E rs now n =
     map_option (\<lambda>q. \<lparr>round_id = Suc n, round_question = q, start_time = now,
                      solved = False, solver = None, time_taken = None,
                      round_hints = 0, round_streak = 0, ended = False\<rparr>)
       (pick_question E rs n)"

definition solved_by :: "real \<Rightarrow> round_rec \<Rightarrow> string \<Rightarrow> real \<Rightarrow> int \<Rightarrow> int \<Rightarrow> round_rec" where
  \<comment> \<open>Modelled from the spec: \<^verbatim>\<open>Round.solved_by\<close> of \<^verbatim>\<open>models.py\<close> is missing. It records the
      solve: the solver, the time taken (now minus the start of the round), the hints
      used and the streak. The second argument of the call is the length of a round.\<close>
  "solved_by now r name total_time n_hints n_streak =
     r\<lparr>solved := True, solver := Some name, time_taken := Some (now - start_time r),
       round_hints := n_hints, round_streak := n_streak\<rparr>"

definition end_round :: "round_rec \<Rightarrow> round_rec" where
  \<comment> \<open>Modelled from the spec: \<^verbatim>\<open>Round.end_round\<close> of \<^verbatim>\<open>models.py\<close> is missing. It marks the
      record as ended.\<close>
  "end_round r = r\<lparr>ended := True\<rparr>"

subsection \<open>Hints, streak and the initial state\<close>

definition reset_hints :: "game \<Rightarrow> game" where
  "reset_hints g =
     g\<lparr>hints := \<lparr>hint_count = 0, hint_current = None, hint_time = 0, hint_cooldown = 0\<rparr>\<rparr>"

definition reset_streak :: "game \<Rightarrow> game" where
  "reset_streak g =
     g\<lparr>streak := \<lparr>streak_count = 0, streak_player_name = None, streak_player_id = None\<rparr>\<rparr>"

definition init :: "real \<Rightarrow> game" where
  \<comment> \<open>\<^verbatim>\<open>__init__\<close>; \<^verbatim>\<open>round_start\<close> is not assigned there, the attribute does not exist yet.\<close>
  "init now =
     reset_streak (reset_hints
       \<lparr>state = STATE_IDLE, last_action = now, timeout = None, timer_start = None,
        cur_round = None, round_start = None, player_count = 0,
        hints = \<lparr>hint_count = 0, hint_current = None, hint_time = 0, hint_cooldown = 0\<rparr>,
        streak = \<lparr>streak_count = 0, streak_player_name = None, streak_player_id = None\<rparr>,
        tasks = [], next_task = 0, rounds_made = 0, sent = []\<rparr>)"

definition has_streak :: "game \<Rightarrow> player \<Rightarrow> bool" where
  "has_streak g p \<longleftrightarrow>
     streak_player_id (streak g) = Some (p_id p) \<and> streak_count (streak g) \<ge> STREAK_STEPS"

subsection \<open>The round info\<close>

definition get_round_info :: "real \<Rightarrow> game \<Rightarrow> error + info" where
  "get_round_info now g =
     (case (if cur_round g \<noteq> None
            then (case timer_start g of None \<Rightarrow> Inl TypeError | Some ts \<Rightarrow> Inr (now - ts))
            else Inr 0) of
        Inl e \<Rightarrow> Inl e
      | Inr elapsed_time \<Rightarrow>
         (case state g of
            STATE_QUESTION \<Rightarrow>
              (case cur_round g of
                 None \<Rightarrow> Inl AttributeError
               | Some r \<Rightarrow>
                   Inr \<lparr>info_game = Question_view (round_id r)
                                      (category_names (round_question r))
                                      (question_text (round_question r))
                                      (hint_current (hints g)),
                        info_timer = Some \<lparr>colorless = False,
                                           width = (ROUND_TIME - elapsed_time) / ROUND_TIME * 100,
                                           time_left = ROUND_TIME - elapsed_time\<rparr>\<rparr>)
          | STATE_WAITING \<Rightarrow>
              (case cur_round g of
                 None \<Rightarrow> Inl AttributeError
               | Some r \<Rightarrow>
                   (case (if solved r
                          then (case solver r of
                                  None \<Rightarrow> Inl AttributeError
                                | Some name \<Rightarrow>
                                    (case time_taken r of
                                       None \<Rightarrow> Inl TypeError
                                     | Some t \<Rightarrow>
                                         Inr (Solved_view (round_id r) name t
                                                (question_text (round_question r))
                                                (primary_answer (round_question r)))))
                          else Inr (Timeup_view (round_id r)
                                      (question_text (round_question r))
                                      (primary_answer (round_question r)))) of
                      Inl e \<Rightarrow> Inl e
                    | Inr v \<Rightarrow>
                        Inr \<lparr>info_game = v,
                             info_timer = Some \<lparr>colorless = True,
                                                width = (WAIT_TIME - elapsed_time) / WAIT_TIME * 100,
                                                time_left = WAIT_TIME - elapsed_time\<rparr>\<rparr>))
          | STATE_IDLE \<Rightarrow> Inr \<lparr>info_game = Idle_view, info_timer = None\<rparr>
          | STATE_LOCKED \<Rightarrow> Inr \<lparr>info_game = Locked_view, info_timer = None\<rparr>))"

definition broadcast :: "message \<Rightarrow> game \<Rightarrow> game" where
  "broadcast m g = g\<lparr>sent := sent g @ [m]\<rparr>"

definition broadcast_info :: "real \<Rightarrow> game \<Rightarrow> error + game" where
  "broadcast_info now g =
     (case get_round_info now g of
        Inl e \<Rightarrow> Inl e
      | Inr i \<Rightarrow> Inr (broadcast (Setinfo i) g))"

subsection \<open>Hints and streak announcements\<close>

definition get_hint :: "collab \<Rightarrow> real \<Rightarrow> game \<Rightarrow> error + game" where
  "get_hint E now g =
     (if state g \<noteq> STATE_QUESTION \<or> hint_count (hints g) \<ge> HINT_MAX then Inr g
      else
        (case timer_start g of
           None \<Rightarrow> Inl TypeError
         | Some ts \<Rightarrow>
             (let elapsed_time = now - ts;
                  current_max_hints = \<lceil>elapsed_time / HINT_TIMING\<rceil>
              in if now - hint_time (hints g) < HINT_COOLDOWN then Inr g
                 else if current_max_hints > hint_count (hints g) then
                   (let g1 = g\<lparr>hints := (hints g)\<lparr>hint_time := now,
                                                  hint_count := hint_count (hints g) + 1\<rparr>\<rparr>
                    in case cur_round g1 of
                         None \<Rightarrow> Inl AttributeError
                       | Some r \<Rightarrow>
                           broadcast_info now
                             (g1\<lparr>hints := (hints g1)\<lparr>hint_current :=
                                    Some (get_hint_text E (round_question r)
                                            (hint_count (hints g1)))\<rparr>\<rparr>))
                 else Inr g)))"

definition announce_streak :: "string \<Rightarrow> bool \<Rightarrow> game \<Rightarrow> game" where
  "announce_streak player_name broken g =
     (let n = streak_count (streak g)
      in if broken
         then broadcast (System (Streak_broken player_name (streak_player_name (streak g)) n)) g
         else broadcast (System (Streak_reached player_name n (n = STREAK_STEPS))) g)"

subsection \<open>Timers\<close>

text \<open>
  \<^verbatim>\<open>asyncio.async(coro)\<close> makes a task and returns its handle; the body of the task runs on
  the next turn of the event loop, as far as its first \<^verbatim>\<open>asyncio.sleep\<close>. The coroutines
  \<^verbatim>\<open>round_solved\<close>, \<^verbatim>\<open>round_end\<close> and \<^verbatim>\<open>start_new_round\<close> do not sleep. The model runs an
  event (one chat message, or the end of one sleep) together with the tasks and
  callbacks it starts, in the order the loop runs them, up to the next sleep; \<open>tasks\<close>
  holds the sleeping tasks. \<^verbatim>\<open>call_soon_threadsafe(self.timeout.cancel)\<close> binds the handle
  that \<^verbatim>\<open>self.timeout\<close> holds at the call; cancelling a sleeping task removes it, cancelling
  a finished one does nothing.
\<close>

definition cancel :: "nat \<Rightarrow> game \<Rightarrow> game" where
  "cancel h g = g\<lparr>tasks := filter (\<lambda>t. fst t \<noteq> h) (tasks g)\<rparr>"

definition sleep :: "nat \<Rightarrow> timer_kind \<Rightarrow> real \<Rightarrow> game \<Rightarrow> game" where
  "sleep h k due g = g\<lparr>tasks := tasks g @ [(h, k, due)]\<rparr>"

definition new_handle :: "game \<Rightarrow> game" where
  \<comment> \<open>\<^verbatim>\<open>self.timeout = asyncio.async(...)\<close>: the new task has the handle \<open>next_task g\<close>.\<close>
  "new_handle g = g\<lparr>timeout := Some (next_task g), next_task := Suc (next_task g)\<rparr>"

definition delay_new_round :: "real \<Rightarrow> bool \<Rightarrow> nat \<Rightarrow> game \<Rightarrow> game" where
  \<comment> \<open>The coroutine as far as its sleep; \<open>h\<close> is the handle of the task that runs it.\<close>
  "delay_new_round now new_round h g =
     (let g1 = g\<lparr>state := STATE_WAITING\<rparr>
      in if new_round
         then (let wait = WAIT_TIME / 2;
                   g2 = reset_streak (g1\<lparr>round_start := Some now\<rparr>);
                   g3 = broadcast (System (New_round_starting wait)) g2
               in sleep h Delay_new_round (now + wait) g3)
         else sleep h Delay_new_round (now + WAIT_TIME) g1)"

definition start_delay :: "real \<Rightarrow> bool \<Rightarrow> game \<Rightarrow> game" where
  \<comment> \<open>\<^verbatim>\<open>self.timeout = asyncio.async(self.delay_new_round(new_round))\<close>\<close>
  "start_delay now new_round g = delay_new_round now new_round (next_task g) (new_handle g)"

definition stop_game :: "string option \<Rightarrow> bool \<Rightarrow> real \<Rightarrow> game \<Rightarrow> error + game" where
  "stop_game reason lock now g =
     (let g1 = (case timeout g of None \<Rightarrow> g | Some h \<Rightarrow> cancel h g);
          g2 = g1\<lparr>state := (if lock then STATE_LOCKED else STATE_IDLE)\<rparr>;
          text = (case reason of
                    None \<Rightarrow> ''Stopping due to inactivity!''
                  | Some r \<Rightarrow> if r = [] then ''Stopping due to inactivity!'' else r)
      in broadcast_info now (broadcast (System (Stop_notice text)) g2))"

definition begin_round :: "real \<Rightarrow> round_rec \<Rightarrow> game \<Rightarrow> error + game" where
  \<comment> \<open>\<^verbatim>\<open>start_new_round\<close> from \<^verbatim>\<open>self.round = new_round\<close> on; the task of \<^verbatim>\<open>round_timeout\<close>
      goes to sleep at once.\<close>
  "begin_round now r g =
     (let g1 = g\<lparr>cur_round := Some r, rounds_made := Suc (rounds_made g)\<rparr>;
          g2 = sleep (next_task g1) Round_timeout (now + ROUND_TIME) (new_handle g1);
          g3 = reset_hints (g2\<lparr>state := STATE_QUESTION, timer_start := Some now\<rparr>)
      in broadcast_info now g3)"

definition start_new_round :: "collab \<Rightarrow> real \<Rightarrow> game \<Rightarrow> error + game" where
  "start_new_round E now g =
     (case round_start g of
        None \<Rightarrow> Inl AttributeError
      | Some rs \<Rightarrow>
          (case Round_new E rs now (rounds_made g) of
             Some r \<Rightarrow> begin_round now r g
           | None \<Rightarrow>
               (let g1 = g\<lparr>round_start := Some now\<rparr>
                in case Round_new E now now (rounds_made g1) of
                     None \<Rightarrow> Inl IndexError
                   | Some r \<Rightarrow> begin_round now r g1)))"

definition round_end :: "real \<Rightarrow> game \<Rightarrow> error + game" where
  "round_end now g =
     (case broadcast_info now (g\<lparr>state := STATE_WAITING, timer_start := Some now\<rparr>) of
        Inl e \<Rightarrow> Inl e
      | Inr g1 \<Rightarrow> Inr (start_delay now False g1))"

definition round_timeout :: "real \<Rightarrow> game \<Rightarrow> error + game" where
  \<comment> \<open>The coroutine after its sleep.\<close>
  "round_timeout now g =
     (case cur_round g of
        None \<Rightarrow> Inl AttributeError
      | Some r \<Rightarrow> round_end now (g\<lparr>cur_round := Some (end_round r)\<rparr>))"

definition delay_over :: "collab \<Rightarrow> real \<Rightarrow> game \<Rightarrow> error + game" where
  \<comment> \<open>\<^verbatim>\<open>delay_new_round\<close> after its sleep.\<close>
  "delay_over E now g =
     (if player_count g < 1 \<or> now - last_action g > INACTIVITY_TIMEOUT
      then stop_game None False now g
      else start_new_round E now g)"

definition next_round :: "collab \<Rightarrow> real \<Rightarrow> game \<Rightarrow> error + game" where
  "next_round E now g =
     (case timeout g of
        Some h \<Rightarrow>
          if state g = STATE_WAITING then start_new_round E now (cancel h g) else Inr g
      | None \<Rightarrow> Inr g)"

subsection \<open>A solved round\<close>

definition streak_solved :: "player \<Rightarrow> game \<Rightarrow> game" where
  \<comment> \<open>The streak bookkeeping of \<^verbatim>\<open>round_solved\<close>.\<close>
  "streak_solved p g =
     (if streak_player_id (streak g) = Some (p_id p)
      then (let g1 = g\<lparr>streak := (streak g)\<lparr>streak_count := streak_count (streak g) + 1,
                                              streak_player_name := Some (p_name p)\<rparr>\<rparr>
            in if streak_count (streak g1) mod STREAK_STEPS = 0
               then announce_streak (p_name p) False g1 else g1)
      else (let g1 = (if streak_count (streak g) > STREAK_STEPS
                      then announce_streak (p_name p) True g else g)
            in g1\<lparr>streak := \<lparr>streak_count = 1, streak_player_name = Some (p_name p),
                             streak_player_id = Some (p_id p)\<rparr>\<rparr>))"

definition round_solved :: "real \<Rightarrow> player \<Rightarrow> game \<Rightarrow> error + game" where
  \<comment> \<open>\<^verbatim>\<open>Round[self.round.id]\<close> reads the record of the current round again; nothing but
      the game writes it, so it is the record \<open>cur_round\<close> holds. The solver is the stored
      player of that name.\<close>
  "round_solved now p g =
     (let g1 = streak_solved p (g\<lparr>state := STATE_WAITING\<rparr>)
      in case cur_round g1 of
           None \<Rightarrow> Inl AttributeError
         | Some r \<Rightarrow>
             (let played_round =
                    end_round (solved_by now r (p_name p) ROUND_TIME
                                 (hint_count (hints g1)) (streak_count (streak g1)))
              in round_end now (g1\<lparr>cur_round := Some played_round\<rparr>)))"

subsection \<open>The patterns of the chat commands\<close>

text \<open>
  The patterns are compiled with \<^verbatim>\<open>re.I\<close> and anchored at the start of the text. A
  character is a code point below 256; \<open>is_space\<close> is the white space of \<^verbatim>\<open>\S\<close> and of
  \<^verbatim>\<open>str.split()\<close> in that range.
\<close>

definition lower_char :: "char \<Rightarrow> char" where
  "lower_char c =
     (let n = (of_char c :: nat) in if 65 \<le> n \<and> n \<le> 90 then char_of (n + 32) else c)"

definition is_space :: "char \<Rightarrow> bool" where
  "is_space c =
     (let n = (of_char c :: nat)
      in (9 \<le> n \<and> n \<le> 13) \<or> (28 \<le> n \<and> n \<le> 32) \<or> n = 133 \<or> n = 160)"

definition RE_START :: "string \<Rightarrow> bool" where
  \<comment> \<open>\<^verbatim>\<open>^!start\<close>\<close>
  "RE_START text \<longleftrightarrow> map lower_char (take 6 text) = ''!start''"

definition RE_HINT :: "string \<Rightarrow> bool" where
  \<comment> \<open>\<^verbatim>\<open>^!h(int)?\<close>\<close>
  "RE_HINT text \<longleftrightarrow> map lower_char (take 2 text) = ''!h''"

definition RE_NEXT :: "string \<Rightarrow> bool" where
  \<comment> \<open>\<^verbatim>\<open>^!n(ext)?\<close>\<close>
  "RE_NEXT text \<longleftrightarrow> map lower_char (take 2 text) = ''!n''"

definition RE_ADMIN :: "string \<Rightarrow> (string \<times> string) option" where
  \<comment> \<open>\<^verbatim>\<open>^!a(?:dmin)? (\S+) ?(.*?)$\<close>: the two groups of the match. The dot does not match
      a line feed, and \<^verbatim>\<open>$\<close> matches at the end or before a line feed that ends the text.\<close>
  "RE_ADMIN text =
     (if map lower_char (take 2 text) \<noteq> ''!a'' then None
      else
        (let r1 = drop 2 text;
             r2 = (if map lower_char (take 4 r1) = ''dmin'' \<and> take 1 (drop 4 r1) = '' ''
                   then Some (drop 5 r1)
                   else if take 1 r1 = '' '' then Some (drop 1 r1) else None)
         in case r2 of
              None \<Rightarrow> None
            | Some r \<Rightarrow>
                (let cmd = takeWhile (\<lambda>c. \<not> is_space c) r;
                     rest = dropWhile (\<lambda>c. \<not> is_space c) r;
                     tail = (if take 1 rest = '' '' then drop 1 rest else rest);
                     args = (if tail \<noteq> [] \<and> last tail = CHR 0x0A then butlast tail else tail)
                 in if cmd = [] \<or> CHR 0x0A \<in> set args then None else Some (cmd, args))))"

fun split_from :: "string \<Rightarrow> string \<Rightarrow> string list" where
  "split_from w [] = (if w = [] then [] else [w])"
| "split_from w (c # cs) =
     (if is_space c then (if w = [] then split_from [] cs else w # split_from [] cs)
      else split_from (w @ [c]) cs)"

definition split :: "string \<Rightarrow> string list" where
  \<comment> \<open>\<^verbatim>\<open>str.split()\<close>\<close>
  "split text = split_from [] text"

subsection \<open>Administrative commands\<close>

definition admin_unlock :: "real \<Rightarrow> game \<Rightarrow> error + game" where
  \<comment> \<open>\<^verbatim>\<open>AdminCommand.unlock\<close>\<close>
  "admin_unlock now g = broadcast_info now (g\<lparr>state := STATE_IDLE\<rparr>)"

definition admin_start :: "real \<Rightarrow> game \<Rightarrow> error + game" where
  \<comment> \<open>\<^verbatim>\<open>AdminCommand.start\<close>\<close>
  "admin_start now g = Inr (start_delay now True g)"

definition admin_hasattr :: "collab \<Rightarrow> string \<Rightarrow> bool" where
  \<comment> \<open>\<^verbatim>\<open>hasattr(self, cmd)\<close>: the two instance attributes, the five methods of the class,
      and what the instance has as a Python object.\<close>
  "admin_hasattr E cmd \<longleftrightarrow>
     cmd \<in> set [''game'', ''player_id'', ''run'', ''next'', ''stop'', ''unlock'', ''start'']
     \<or> object_attr E cmd"

definition admin_call :: "collab \<Rightarrow> real \<Rightarrow> string \<Rightarrow> string list \<Rightarrow> game \<Rightarrow> error + game" where
  \<comment> \<open>\<^verbatim>\<open>getattr(self, cmd)(self, *args)\<close>. \<^verbatim>\<open>run\<close> called with the command object as the
      command name, and the two instance attributes, which are not callable, raise
      \<^verbatim>\<open>TypeError\<close>.\<close>
  "admin_call E now cmd args g =
     (if cmd = ''next'' then next_round E now g
      else if cmd = ''stop'' then stop_game (Some ''Stopped by administrator.'')
                                    (''lock'' \<in> set args) now g
      else if cmd = ''unlock'' then admin_unlock now g
      else if cmd = ''start'' then admin_start now g
      else if cmd \<in> set [''game'', ''player_id'', ''run''] then Inl TypeError
      else (case call_attr E cmd args of Some e \<Rightarrow> Inl e | None \<Rightarrow> Inr g))"

definition admin_run :: "collab \<Rightarrow> real \<Rightarrow> nat \<Rightarrow> string \<Rightarrow> string list \<Rightarrow> game \<Rightarrow> error + game" where
  \<comment> \<open>\<^verbatim>\<open>AdminCommand(game, player_id).run(cmd, *args)\<close>; the logger is not part of the state.\<close>
  "admin_run E now pid cmd args g =
     (if admin_hasattr E cmd
      then (if has_perm E pid cmd then admin_call E now cmd args g else Inr g)
      else Inr g)"

subsection \<open>The chat loop and the events\<close>

definition run_chat :: "collab \<Rightarrow> real \<Rightarrow> player \<Rightarrow> string \<Rightarrow> game \<Rightarrow> error + game" where
  \<comment> \<open>One turn of the loop of \<^verbatim>\<open>run_chat\<close>. The three tests of \<^verbatim>\<open>self.state\<close> exclude each
      other: what a branch starts with \<^verbatim>\<open>asyncio.async\<close> runs after the turn, and
      \<^verbatim>\<open>get_hint\<close> leaves the state as it is.\<close>
  "run_chat E now p text g =
     (let g1 = g\<lparr>last_action := now\<rparr>
      in if RE_ADMIN text \<noteq> None \<and> permissions p > 0
         then (case RE_ADMIN text of
                 None \<Rightarrow> Inr g1
               | Some (cmd, args) \<Rightarrow> admin_run E now (p_id p) cmd (split args) g1)
         else if state g1 = STATE_QUESTION
         then (case cur_round g1 of
                 None \<Rightarrow> Inl AttributeError
               | Some r \<Rightarrow>
                   if check_answer E (round_question r) text
                   then (case timeout g1 of
                           None \<Rightarrow> Inl AttributeError
                         | Some h \<Rightarrow> round_solved now p (cancel h g1))
                   else if RE_HINT text then get_hint E now g1
                   else Inr g1)
         else if state g1 = STATE_WAITING
         then (if RE_NEXT text \<and> has_streak g1 p then next_round E now g1 else Inr g1)
         else if state g1 = STATE_IDLE
         then (if RE_START text then Inr (start_delay now True g1) else Inr g1)
         else Inr g1)"

text \<open>
  The events of the loop: a chat message taken from the queue, the end of the sleep of
  the task \<open>h\<close>, and a change of \<^verbatim>\<open>player_count\<close>, which the server sets. A task that is
  not sleeping, or whose sleep is not over, does not wake up.
\<close>

datatype event = Chat player string | Wake nat | Players int

definition wake :: "collab \<Rightarrow> real \<Rightarrow> nat \<Rightarrow> game \<Rightarrow> error + game" where
  "wake E now h g =
     (case find (\<lambda>t. fst t = h) (tasks g) of
        None \<Rightarrow> Inr g
      | Some (h', k, due) \<Rightarrow>
          if now < due then Inr g
          else (case k of
                  Round_timeout \<Rightarrow> round_timeout now (cancel h g)
                | Delay_new_round \<Rightarrow> delay_over E now (cancel h g)))"

fun step :: "collab \<Rightarrow> real \<Rightarrow> event \<Rightarrow> game \<Rightarrow> error + game" where
  "step E now (Chat p text) g = run_chat E now p text g"
| "step E now (Wake h) g = wake E now h g"
| "step E now (Players n) g = Inr (g\<lparr>player_count := n\<rparr>)"

fun exec :: "collab \<Rightarrow> (real \<times> event) list \<Rightarrow> game \<Rightarrow> error + game" where
  "exec E [] g = Inr g"
| "exec E ((now, ev) # evs) g =
     (case step E now ev g of Inl e \<Rightarrow> Inl e | Inr g' \<Rightarrow> exec E evs g')"

subsection \<open>Reachable states\<close>

text \<open>
  A state is reachable when a sequence of events leads to it from the initial state.
  \<open>sound\<close> collects what holds in every reachable state: a question is asked only with a
  round whose start is the start of the timer, a round is never without its timer
  start, a sleeping task has a handle that was given out, no two sleeping tasks share
  a handle, and the hint count stays between 0 and \<open>HINT_MAX\<close>.
\<close>

definition sound :: "game \<Rightarrow> bool" where
  "sound g \<longleftrightarrow>
     (state g = STATE_QUESTION \<longrightarrow> cur_round g \<noteq> None \<and> timeout g \<noteq> None) \<and>
     (\<forall>r. cur_round g = Some r \<longrightarrow>
        timer_start g \<noteq> None \<and> round_start g \<noteq> None \<and>
        (solved r \<longrightarrow> solver r \<noteq> None \<and> time_taken r \<noteq> None) \<and>
        (state g = STATE_QUESTION \<longrightarrow> timer_start g = Some (start_time r))) \<and>
     (state g = STATE_WAITING \<longrightarrow> round_start g \<noteq> None) \<and>
     (\<forall>h. timeout g = Some h \<longrightarrow> h < next_task g) \<and>
     0 \<le> hint_count (hints g) \<and> hint_count (hints g) \<le> HINT_MAX \<and>
     distinct (map fst (tasks g)) \<and>
     (\<forall>t \<in> set (tasks g).
        fst t < next_task g \<and>
        (fst (snd t) = Round_timeout \<longrightarrow> cur_round g \<noteq> None) \<and>
        (fst (snd t) = Delay_new_round \<longrightarrow> round_start g \<noteq> None))"

fun streak_notice :: "message \<Rightarrow> bool" where
  "streak_notice (System (Streak_reached a b c)) = True"
| "streak_notice (System (Streak_broken a b c)) = True"
| "streak_notice m = False"

subsection \<open>A concrete quiz\<close>

text \<open>
  One store with one question, an administrator (alice, who has every permission) and a
  player (bob), to run the game on. \<open>after evs\<close> is the state after the events \<open>evs\<close>;
  \<open>tr_question\<close> starts a game at time 0, the delay of 5 seconds ends, and round 1 is
  asked from time 5 on, its timer (handle 1) due at time 50.
\<close>

definition quiz_question :: question where
  "quiz_question =
     \<lparr>category_names = ''Geography'', question_text = ''Capital of France?'',
      primary_answer = ''Paris''\<rparr>"

definition quiz :: collab where
  "quiz =
     \<lparr>pick_question = (\<lambda>rs n. Some quiz_question),
      check_answer = (\<lambda>q t. t = primary_answer q),
      get_hint_text = (\<lambda>q n. take (nat n) (primary_answer q)),
      has_perm = (\<lambda>pid cmd. pid = 1),
      object_attr = (\<lambda>a. False),
      call_attr = (\<lambda>a args. Some TypeError)\<rparr>"

definition alice :: player where
  "alice = \<lparr>p_id = 1, p_name = ''alice'', permissions = 1\<rparr>"

definition bob :: player where
  "bob = \<lparr>p_id = 2, p_name = ''bob'', permissions = 0\<rparr>"

definition after :: "(real \<times> event) list \<Rightarrow> game" where
  "after evs = (case exec quiz evs (init 0) of Inr g \<Rightarrow> g | Inl e \<Rightarrow> init 0)"

definition tr_question :: "(real \<times> event) list" where
  "tr_question = [(0, Players 2), (0, Chat bob ''!start''), (5, Wake 0)]"

section \<open>Properties\<close>

lemmas const_defs = ROUND_TIME_def WAIT_TIME_def INACTIVITY_TIMEOUT_def STREAK_STEPS_def
  HINT_TIMING_def HINT_COOLDOWN_def HINT_MAX_def

lemmas game_defs = Round_new_def solved_by_def end_round_def reset_hints_def reset_streak_def
  init_def has_streak_def get_round_info_def broadcast_def broadcast_info_def get_hint_def
  announce_streak_def cancel_def sleep_def new_handle_def delay_new_round_def start_delay_def
  stop_game_def begin_round_def start_new_round_def round_end_def round_timeout_def
  delay_over_def next_round_def streak_solved_def round_solved_def

lemmas chat_defs = lower_char_def is_space_def RE_START_def RE_HINT_def RE_NEXT_def RE_ADMIN_def
  split_def admin_unlock_def admin_start_def admin_hasattr_def admin_call_def admin_run_def
  run_chat_def wake_def

lemmas run_defs = quiz_question_def quiz_def alice_def bob_def after_def tr_question_def
  chat_defs game_defs const_defs Let_def

subsection \<open>The invariant of the reachable states\<close>

lemma sound_init: "sound (init t)"
  by (simp add: sound_def init_def reset_hints_def reset_streak_def HINT_MAX_def)

lemma broadcast_info_sent:
  "broadcast_info now g = Inr g' \<Longrightarrow> \<exists>i. g' = g\<lparr>sent := sent g @ [Setinfo i]\<rparr>"
  by (auto simp: broadcast_info_def broadcast_def split: sum.splits)

lemma sound_sent [simp]: "sound (g\<lparr>sent := x\<rparr>) = sound g"
  by (simp add: sound_def)

lemma sound_last_action [simp]: "sound (g\<lparr>last_action := x\<rparr>) = sound g"
  by (simp add: sound_def)

lemma sound_player_count [simp]: "sound (g\<lparr>player_count := x\<rparr>) = sound g"
  by (simp add: sound_def)

lemma sound_streak [simp]: "sound (g\<lparr>streak := x\<rparr>) = sound g"
  by (simp add: sound_def)

lemma sound_broadcast_info: "sound g \<Longrightarrow> broadcast_info now g = Inr g' \<Longrightarrow> sound g'"
  by (auto dest: broadcast_info_sent)

lemma sound_cancel: "sound g \<Longrightarrow> sound (cancel h g)"
  by (auto simp: sound_def cancel_def distinct_map_filter split: option.splits)

lemma sound_start_delay:
  "sound g \<Longrightarrow> new_round \<or> round_start g \<noteq> None \<Longrightarrow> sound (start_delay now new_round g)"
  by (fastforce simp: sound_def start_delay_def delay_new_round_def new_handle_def sleep_def
        reset_streak_def broadcast_def Let_def less_Suc_eq)

lemma sound_get_hint: "sound g \<Longrightarrow> get_hint E now g = Inr g' \<Longrightarrow> sound g'"
proof -
  assume a: "sound g" and b: "get_hint E now g = Inr g'"
  have "hint_count (hints g) < HINT_MAX \<Longrightarrow>
        sound (g\<lparr>hints := (hints g)\<lparr>hint_time := t, hint_count := hint_count (hints g) + 1,
                                   hint_current := c\<rparr>\<rparr>)" for t c
    using a by (fastforce simp: sound_def)
  then show "sound g'" using a b
    by (auto simp: get_hint_def Let_def split: if_splits option.splits dest!: broadcast_info_sent)
qed


lemma sound_stop_game: "sound g \<Longrightarrow> stop_game reason lock now g = Inr g' \<Longrightarrow> sound g'"
proof -
  assume a: "sound g" and b: "stop_game reason lock now g = Inr g'"
  define g1 where "g1 = (case timeout g of None \<Rightarrow> g | Some h \<Rightarrow> cancel h g)"
  have s1: "sound g1" using a by (auto simp: g1_def sound_cancel split: option.splits)
  have "sound (g1\<lparr>state := (if lock then STATE_LOCKED else STATE_IDLE)\<rparr>)"
    using s1 by (auto simp: sound_def split: option.splits)
  then show "sound g'" using b
    by (auto simp: stop_game_def Let_def g1_def broadcast_def dest!: broadcast_info_sent)
qed

lemma sound_begin_round:
  "sound g \<Longrightarrow> round_start g \<noteq> None \<Longrightarrow> start_time r = now \<Longrightarrow> \<not> solved r \<Longrightarrow> begin_round now r g = Inr g' \<Longrightarrow> sound g'"
  by (fastforce simp: begin_round_def Let_def sound_def new_handle_def sleep_def reset_hints_def less_Suc_eq
       HINT_MAX_def dest!: broadcast_info_sent)

lemma Round_new_fresh: "Round_new E rs now n = Some r \<Longrightarrow> start_time r = now \<and> \<not> solved r"
  by (auto simp: Round_new_def)

lemma sound_start_new_round: "sound g \<Longrightarrow> start_new_round E now g = Inr g' \<Longrightarrow> sound g'"
proof -
  assume a: "sound g" and b: "start_new_round E now g = Inr g'"
  from b obtain rs where rs: "round_start g = Some rs"
    by (auto simp: start_new_round_def split: option.splits)
  show "sound g'"
  proof (cases "Round_new E rs now (rounds_made g)")
    case (Some r)
    then have "begin_round now r g = Inr g'" using b rs by (simp add: start_new_round_def)
    then show ?thesis using a rs Round_new_fresh[OF Some] by (auto intro: sound_begin_round)
  next
    case None
    let ?g1 = "g\<lparr>round_start := Some now\<rparr>"
    from None b rs obtain r where r: "Round_new E now now (rounds_made g) = Some r"
       and br: "begin_round now r ?g1 = Inr g'"
      by (auto simp: start_new_round_def Let_def split: option.splits)
    have c: "sound ?g1" using a by (fastforce simp: sound_def)
    have "round_start ?g1 \<noteq> None" by simp
    then show ?thesis using c br Round_new_fresh[OF r] sound_begin_round by blast
  qed
qed


lemma sound_round_end:
  "sound g \<Longrightarrow> cur_round g \<noteq> None \<Longrightarrow> round_end now g = Inr g' \<Longrightarrow> sound g'"
proof -
  assume a: "sound g" and n: "cur_round g \<noteq> None" and b: "round_end now g = Inr g'"
  let ?g1 = "g\<lparr>state := STATE_WAITING, timer_start := Some now\<rparr>"
  have s1: "sound ?g1" using a n by (fastforce simp: sound_def)
  have rs: "round_start g \<noteq> None" using a n by (auto simp: sound_def)
  from b obtain g2 where g2: "broadcast_info now ?g1 = Inr g2" and g': "g' = start_delay now False g2"
    by (auto simp: round_end_def split: sum.splits)
  have "sound g2" using s1 g2 by (rule sound_broadcast_info)
  moreover have "round_start g2 \<noteq> None" using g2 rs by (auto dest!: broadcast_info_sent)
  ultimately show "sound g'" unfolding g' by (simp add: sound_start_delay)
qed

lemma sound_round_timeout: "sound g \<Longrightarrow> round_timeout now g = Inr g' \<Longrightarrow> sound g'"
proof -
  assume a: "sound g" and b: "round_timeout now g = Inr g'"
  from b obtain r where r: "cur_round g = Some r"
     and e: "round_end now (g\<lparr>cur_round := Some (end_round r)\<rparr>) = Inr g'"
    by (auto simp: round_timeout_def split: option.splits)
  have "sound (g\<lparr>cur_round := Some (end_round r)\<rparr>)"
    using a r by (fastforce simp: sound_def end_round_def)
  then show "sound g'" using e by (auto intro: sound_round_end)
qed

lemma streak_solved_fields:
  "state (streak_solved p g) = state g" "cur_round (streak_solved p g) = cur_round g"
  "timeout (streak_solved p g) = timeout g" "timer_start (streak_solved p g) = timer_start g"
  "round_start (streak_solved p g) = round_start g" "tasks (streak_solved p g) = tasks g"
  "next_task (streak_solved p g) = next_task g" "hints (streak_solved p g) = hints g"
  by (simp_all add: streak_solved_def announce_streak_def broadcast_def Let_def)

lemma sound_round_solved: "sound g \<Longrightarrow> round_solved now p g = Inr g' \<Longrightarrow> sound g'"
proof -
  assume a: "sound g" and b: "round_solved now p g = Inr g'"
  let ?g1 = "streak_solved p (g\<lparr>state := STATE_WAITING\<rparr>)"
  from b obtain r where r: "cur_round g = Some r" and
     e: "round_end now (?g1\<lparr>cur_round := Some (end_round (solved_by now r (p_name p) ROUND_TIME
           (hint_count (hints ?g1)) (streak_count (streak ?g1))))\<rparr>) = Inr g'"
    by (auto simp: round_solved_def Let_def streak_solved_fields split: option.splits)
  have "sound (?g1\<lparr>cur_round := Some (end_round (solved_by now r (p_name p) ROUND_TIME x y))\<rparr>)" for x y
    using a r
    by (fastforce simp: sound_def streak_solved_fields end_round_def solved_by_def)
  then show "sound g'" using e sound_round_end by fastforce
qed

lemma sound_delay_over: "sound g \<Longrightarrow> delay_over E now g = Inr g' \<Longrightarrow> sound g'"
  by (auto simp: delay_over_def split: if_splits intro: sound_stop_game sound_start_new_round)

lemma sound_next_round: "sound g \<Longrightarrow> next_round E now g = Inr g' \<Longrightarrow> sound g'"
  by (auto simp: next_round_def split: option.splits if_splits intro: sound_start_new_round sound_cancel)


lemma sound_admin_unlock: "sound g \<Longrightarrow> admin_unlock now g = Inr g' \<Longrightarrow> sound g'"
proof -
  assume a: "sound g" and b: "admin_unlock now g = Inr g'"
  have "sound (g\<lparr>state := STATE_IDLE\<rparr>)" using a by (fastforce simp: sound_def)
  then show "sound g'" using b unfolding admin_unlock_def by (rule sound_broadcast_info)
qed

lemma sound_admin_call: "sound g \<Longrightarrow> admin_call E now cmd args g = Inr g' \<Longrightarrow> sound g'"
  unfolding admin_call_def admin_start_def
  by (auto split: if_splits option.splits simp: sound_start_delay
       dest: sound_next_round[rotated] sound_stop_game[rotated] sound_admin_unlock[rotated])

lemma sound_admin_run: "sound g \<Longrightarrow> admin_run E now pid cmd args g = Inr g' \<Longrightarrow> sound g'"
  unfolding admin_run_def by (auto split: if_splits dest: sound_admin_call[rotated])

lemma sound_run_chat: "sound g \<Longrightarrow> run_chat E now p text g = Inr g' \<Longrightarrow> sound g'"
proof -
  assume a: "sound g" and b: "run_chat E now p text g = Inr g'"
  let ?g1 = "g\<lparr>last_action := now\<rparr>"
  have s1: "sound ?g1" using a by simp
  have s2: "sound (cancel h ?g1)" for h using s1 by (rule sound_cancel)
  show "sound g'" using b s1 s2 unfolding run_chat_def Let_def
    by (auto split: if_splits option.splits simp: sound_start_delay
          dest: sound_admin_run[rotated] sound_round_solved[rotated] sound_get_hint[rotated]
                sound_next_round[rotated])
qed

lemma sound_wake: "sound g \<Longrightarrow> wake E now h g = Inr g' \<Longrightarrow> sound g'"
  using sound_round_timeout[OF sound_cancel, of g now h g']
        sound_delay_over[OF sound_cancel, of g E now h g']
  unfolding wake_def
  by (auto split: option.splits if_splits timer_kind.splits)

lemma sound_step: "sound g \<Longrightarrow> step E now ev g = Inr g' \<Longrightarrow> sound g'"
  by (cases ev) (auto dest: sound_run_chat[rotated] sound_wake[rotated])

lemma sound_exec: "sound g \<Longrightarrow> exec E evs g = Inr g' \<Longrightarrow> sound g'"
proof (induction evs arbitrary: g)
  case Nil
  then show ?case by simp
next
  case (Cons a evs)
  obtain now ev where a: "a = (now, ev)" by (cases a)
  from Cons.prems(2) obtain g1 where "step E now ev g = Inr g1" "exec E evs g1 = Inr g'"
    by (auto simp: a split: sum.splits)
  then show ?case using Cons.IH Cons.prems(1) sound_step by blast
qed

lemma reachable_sound: "exec E evs (init t0) = Inr g \<Longrightarrow> sound g"
  using sound_exec sound_init by blast


subsection \<open>Auxiliary facts\<close>

lemma find_distinct:
  "distinct (map fst ts) \<Longrightarrow> t \<in> set ts \<Longrightarrow> find (\<lambda>x. fst x = fst t) ts = Some t"
  by (induction ts) (auto simp: rev_image_eqI)

lemma find_filtered: "find (\<lambda>t. fst t = h) (filter (\<lambda>t. fst t \<noteq> h) ts) = None"
  by (induction ts) auto

lemma exec_tr_question: "exec quiz tr_question (init 0) = Inr (after tr_question)"
  by (simp add: run_defs)

lemma start_new_round_fresh:
  "start_new_round E now g = Inr g' \<Longrightarrow>
     \<exists>r. cur_round g' = Some r \<and> start_time r = now \<and> timer_start g' = Some now \<and>
         state g' = STATE_QUESTION"
  by (auto simp: start_new_round_def begin_round_def Round_new_def Let_def reset_hints_def
        new_handle_def sleep_def split: option.splits dest!: broadcast_info_sent)

lemma get_round_info_reachable:
  "sound g \<Longrightarrow>
     (state g = STATE_WAITING \<and> cur_round g = None) \<or> (\<exists>i. get_round_info now g = Inr i)"
  by (cases "state g") (auto simp: sound_def get_round_info_def split: option.splits)

subsection \<open>Solving a round\<close>

text \<open>
  C1. When a correct answer arrives while a question is asked, the round is recorded as
  solved with the time taken equal to now minus the start of the round, the hints used
  and the streak count. In every reachable state \<open>g\<close> that asks the round \<open>r\<close>, a chat
  message that \<^verbatim>\<open>check_answer\<close> accepts (and that is not an administrative command) moves
  the game to the waiting state; the record of the round is solved by the sender, its
  time taken is \<open>now - start_time r\<close>, where \<open>start_time r\<close> is also the start of the
  timer of the round, its hints are the hint count, and its streak is the streak count
  after the solve. The task of the round timer is cancelled.
\<close>

theorem correct_answer_records_solve:
  assumes "exec E evs (init t0) = Inr g" "state g = STATE_QUESTION" "cur_round g = Some r"
     "check_answer E (round_question r) text" "RE_ADMIN text = None \<or> permissions p \<le> 0"
  shows "\<exists>g' r' h. run_chat E now p text g = Inr g' \<and> state g' = STATE_WAITING \<and>
     timer_start g = Some (start_time r) \<and>
     cur_round g' = Some r' \<and> solved r' \<and> solver r' = Some (p_name p) \<and>
     time_taken r' = Some (now - start_time r) \<and>
     round_hints r' = hint_count (hints g) \<and>
     round_streak r' = streak_count (streak g') \<and>
     streak_count (streak g') =
       (if streak_player_id (streak g) = Some (p_id p) then streak_count (streak g) + 1 else 1) \<and>
     timeout g = Some h \<and> h \<notin> fst ` set (tasks g')"
proof -
  have s: "sound g" using assms(1) by (rule reachable_sound)
  then obtain h where h: "timeout g = Some h" "h < next_task g"
    and ts: "timer_start g = Some (start_time r)"
    using assms(2,3) by (auto simp: sound_def)
  show ?thesis using assms(2-5) h ts
    by (auto simp: run_chat_def cancel_def round_solved_def streak_solved_def announce_streak_def
          Let_def round_end_def broadcast_info_def get_round_info_def broadcast_def
          start_delay_def delay_new_round_def new_handle_def sleep_def solved_by_def end_round_def)
qed

text \<open>
  The round of \<open>tr_question\<close> starts at time 5; bob answers at time 15, ten seconds into
  the round of 45 seconds: the time taken is 10, with no hint and a streak of 1.
\<close>

theorem correct_answer_records_solve_witness:
  "exec quiz tr_question (init 0) = Inr (after tr_question) \<and>
   state (after tr_question) = STATE_QUESTION \<and>
   map_option start_time (cur_round (after tr_question)) = Some 5 \<and>
   check_answer quiz quiz_question ''Paris'' \<and> RE_ADMIN ''Paris'' = None \<and>
   (\<exists>g' r'. run_chat quiz 15 bob ''Paris'' (after tr_question) = Inr g' \<and>
      state g' = STATE_WAITING \<and> cur_round g' = Some r' \<and> solved r' \<and>
      solver r' = Some ''bob'' \<and> time_taken r' = Some 10 \<and> round_hints r' = 0 \<and>
      round_streak r' = 1)"
proof -
  let ?r = "\<lparr>round_id = 1, round_question = quiz_question, start_time = 5, solved = False,
             solver = None, time_taken = None, round_hints = 0, round_streak = 0,
             ended = False\<rparr>"
  have h2: "state (after tr_question) = STATE_QUESTION" by (simp add: run_defs)
  have h3: "cur_round (after tr_question) = Some ?r" by (simp add: run_defs)
  have h4: "check_answer quiz (round_question ?r) ''Paris''" by (simp add: run_defs)
  have h5: "RE_ADMIN ''Paris'' = None \<or> permissions bob \<le> 0" by (simp add: run_defs)
  show ?thesis
    using correct_answer_records_solve [OF exec_tr_question h2 h3 h4 h5, of 15]
          exec_tr_question h2 h3 h4 h5
    by (auto simp: run_defs)
qed

subsection \<open>Timers\<close>

text \<open>
  C2. At most one timer is outstanding at any instant: a step that schedules a timer
  cancels the one scheduled before. The administrative command \<^verbatim>\<open>start\<close> schedules the
  delay of a new round and cancels nothing, unlike \<^verbatim>\<open>next_round\<close> and \<^verbatim>\<open>stop_game\<close>:
  given while round 1 is asked, it leaves the timer of the round (handle 1) asleep
  beside the new delay (handle 2).
\<close>

theorem admin_start_keeps_round_timer:
  "state (after tr_question) = STATE_QUESTION \<and>
   tasks (after tr_question) = [(1, Round_timeout, 50)] \<and>
   tasks (after (tr_question @ [(6, Chat alice ''!admin start'')])) =
     [(1, Round_timeout, 50), (2, Delay_new_round, 11)]"
  by (simp add: run_defs)

text \<open>
  C3, as amended. The callback of the round timer carries no round id and tests neither
  the round nor the state. Whenever its sleep ends, in any reachable state, it ends the
  current round, sets the state to waiting, restarts the timer start and schedules the
  delay before the next round. What keeps a stale timer from acting is its
  cancellation alone: a cancelled timer does not wake up, the state stays as it is.
\<close>

theorem round_timeout_acts_unless_cancelled:
  assumes "exec E evs (init t0) = Inr g" "(h, Round_timeout, due) \<in> set (tasks g)" "due \<le> now"
  shows "(\<exists>g' r. cur_round g = Some r \<and> wake E now h g = Inr g' \<and>
            state g' = STATE_WAITING \<and> cur_round g' = Some (end_round r) \<and>
            timer_start g' = Some now \<and> timeout g' = Some (next_task g) \<and>
            tasks g' = filter (\<lambda>t. fst t \<noteq> h) (tasks g) @
                         [(next_task g, Delay_new_round, now + WAIT_TIME)]) \<and>
         wake E now h (cancel h g) = Inr (cancel h g)"
proof -
  have s: "sound g" using assms(1) by (rule reachable_sound)
  then obtain r where r: "cur_round g = Some r"
    using assms(2) by (fastforce simp: sound_def)
  have ok: "solved r \<longrightarrow> solver r \<noteq> None \<and> time_taken r \<noteq> None"
    and ts: "timer_start g \<noteq> None"
    using s r by (auto simp: sound_def)
  have "distinct (map fst (tasks g))" using s by (simp add: sound_def)
  from find_distinct [OF this assms(2)]
  have f: "find (\<lambda>t. fst t = h) (tasks g) = Some (h, Round_timeout, due)" by simp
  have "\<exists>g'. wake E now h g = Inr g' \<and>
            state g' = STATE_WAITING \<and> cur_round g' = Some (end_round r) \<and>
            timer_start g' = Some now \<and> timeout g' = Some (next_task g) \<and>
            tasks g' = filter (\<lambda>t. fst t \<noteq> h) (tasks g) @
                         [(next_task g, Delay_new_round, now + WAIT_TIME)]"
    using f r ok assms(3)
    by (auto simp: wake_def cancel_def round_timeout_def round_end_def broadcast_info_def
          get_round_info_def broadcast_def start_delay_def delay_new_round_def new_handle_def
          sleep_def end_round_def)
  moreover have "wake E now h (cancel h g) = Inr (cancel h g)"
    by (simp add: wake_def cancel_def find_filtered)
  ultimately show ?thesis using r by blast
qed

text \<open>
  The timer of round 1 (handle 1, due at time 50) still sleeps after the administrator
  unlocked the game at time 6; at time 50 it ends the round and the game waits.
\<close>

theorem round_timeout_acts_unless_cancelled_witness:
  "(1, Round_timeout, 50) \<in> set (tasks (after (tr_question @ [(6, Chat alice ''!admin unlock'')]))) \<and>
   (\<exists>g'. wake quiz 50 1 (after (tr_question @ [(6, Chat alice ''!admin unlock'')])) = Inr g' \<and>
         state g' = STATE_WAITING \<and> tasks g' = [(2, Delay_new_round, 60)])"
proof -
  let ?tr = "tr_question @ [(6, Chat alice ''!admin unlock'')]"
  have h1: "exec quiz ?tr (init 0) = Inr (after ?tr)" by (simp add: run_defs)
  have h2: "(1, Round_timeout, 50) \<in> set (tasks (after ?tr))" by (simp add: run_defs)
  have h3: "(50::real) \<le> 50" by simp
  have n: "next_task (after ?tr) = 2" "tasks (after ?tr) = [(1, Round_timeout, 50)]"
    by (simp_all add: run_defs)
  show ?thesis
    using round_timeout_acts_unless_cancelled [OF h1 h2 h3] h2 n
    by (auto simp: WAIT_TIME_def)
qed

text \<open>
  The claim as stated fails twice on one run. The timer of round 1 is scheduled at
  time 5. The administrator starts a new game at time 6, and round 2 is asked from time
  11 on: the current round is no longer round 1. At time 50 the timer of round 1
  wakes up and changes the state: round 2 is ended after 39 seconds. In the other run
  the administrator unlocks the game at time 6, the state is idle, and the timer of
  round 1 changes the state at time 50.
\<close>

theorem stale_round_timeout_counterexample:
  "timeout (after tr_question) = Some 1 \<and>
   map_option round_id (cur_round (after tr_question)) = Some 1 \<and>
   map_option round_id
     (cur_round (after (tr_question @ [(6, Chat alice ''!admin start''), (11, Wake 2)]))) = Some 2 \<and>
   wake quiz 50 1 (after (tr_question @ [(6, Chat alice ''!admin start''), (11, Wake 2)])) \<noteq>
     Inr (after (tr_question @ [(6, Chat alice ''!admin start''), (11, Wake 2)])) \<and>
   state (after (tr_question @ [(6, Chat alice ''!admin unlock'')])) = STATE_IDLE \<and>
   wake quiz 50 1 (after (tr_question @ [(6, Chat alice ''!admin unlock'')])) \<noteq>
     Inr (after (tr_question @ [(6, Chat alice ''!admin unlock'')]))"
  by (simp add: run_defs)


subsection \<open>Hints\<close>

text \<open>
  C4. Within a round \<^verbatim>\<open>get_hint\<close> never decreases the hint count, never lets it exceed
  \<open>HINT_MAX\<close>, releases at most one hint per call even when the time elapsed allows
  more, and releases a hint only when at least \<open>HINT_COOLDOWN\<close> has passed since the
  release before; it changes nothing unless a question is asked. This holds, and the
  call returns, in every reachable state.
\<close>

theorem get_hint_release:
  assumes "exec E evs (init t0) = Inr g"
  shows "\<exists>g'. get_hint E now g = Inr g' \<and>
     hint_count (hints g) \<le> hint_count (hints g') \<and>
     hint_count (hints g') \<le> hint_count (hints g) + 1 \<and>
     hint_count (hints g') \<le> HINT_MAX \<and>
     (hint_count (hints g') \<noteq> hint_count (hints g) \<longrightarrow>
        HINT_COOLDOWN \<le> now - hint_time (hints g) \<and> hint_time (hints g') = now) \<and>
     (state g \<noteq> STATE_QUESTION \<longrightarrow> g' = g)"
proof -
  have s: "sound g" using assms by (rule reachable_sound)
  then have q: "state g = STATE_QUESTION \<Longrightarrow> cur_round g \<noteq> None \<and> timer_start g \<noteq> None"
    and m: "hint_count (hints g) \<le> HINT_MAX"
    by (auto simp: sound_def)
  show ?thesis using q m
    by (auto simp: get_hint_def Let_def broadcast_info_def get_round_info_def broadcast_def
         split: option.splits)
qed

text \<open>
  Round 1 starts at time 5 and the first hint is released at time 16. At time 26 the
  time elapsed is 21 seconds, which allows three hints; one is released, the second.
\<close>

theorem get_hint_release_witness:
  "hint_count (hints (after (tr_question @ [(16, Chat bob ''!hint'')]))) = 1 \<and>
   \<lceil>(26 - 5) / HINT_TIMING\<rceil> = 3 \<and>
   (\<exists>g'. get_hint quiz 26 (after (tr_question @ [(16, Chat bob ''!hint'')])) = Inr g' \<and>
         hint_count (hints g') = 2 \<and> hint_time (hints g') = 26)"
proof -
  let ?tr = "tr_question @ [(16, Chat bob ''!hint'')]"
  have h1: "exec quiz ?tr (init 0) = Inr (after ?tr)" by (simp add: run_defs)
  show ?thesis using get_hint_release [OF h1, of 26] by (simp add: run_defs)
qed

subsection \<open>Streaks\<close>

text \<open>
  C5. On a solve by the player who holds the streak, the streak count grows by exactly
  1, and a streak is announced exactly when the new count is a multiple of
  \<open>STREAK_STEPS\<close>. On a solve by another player, a broken streak is announced exactly
  when the count before was greater than \<open>STREAK_STEPS\<close>, and the streak becomes that of
  the new player with count 1. The notices are those among the messages the solve
  sends.
\<close>

theorem streak_on_solve:
  assumes "cur_round g = Some r"
  shows "\<exists>g'. round_solved now p g = Inr g' \<and>
    (streak_player_id (streak g) = Some (p_id p) \<longrightarrow>
        streak g' = (streak g)\<lparr>streak_count := streak_count (streak g) + 1,
                                streak_player_name := Some (p_name p)\<rparr> \<and>
        filter streak_notice (drop (length (sent g)) (sent g')) =
          (if (streak_count (streak g) + 1) mod STREAK_STEPS = 0
           then [System (Streak_reached (p_name p) (streak_count (streak g) + 1)
                           (streak_count (streak g) + 1 = STREAK_STEPS))]
           else [])) \<and>
    (streak_player_id (streak g) \<noteq> Some (p_id p) \<longrightarrow>
        streak g' = \<lparr>streak_count = 1, streak_player_name = Some (p_name p),
                      streak_player_id = Some (p_id p)\<rparr> \<and>
        filter streak_notice (drop (length (sent g)) (sent g')) =
          (if streak_count (streak g) > STREAK_STEPS
           then [System (Streak_broken (p_name p) (streak_player_name (streak g))
                           (streak_count (streak g)))]
           else []))"
  using assms
  by (auto simp: round_solved_def streak_solved_def announce_streak_def Let_def round_end_def
        broadcast_info_def get_round_info_def broadcast_def start_delay_def delay_new_round_def
        new_handle_def sleep_def solved_by_def end_round_def)

text \<open>
  Bob holds a streak of 4 and solves round 1: the streak is 5 and is announced. Had
  alice held a streak of 6, bob's solve would announce that he broke it; a streak of
  5 is reset without a notice.
\<close>

theorem streak_on_solve_witness:
  "cur_round (after tr_question) \<noteq> None \<and>
   (\<exists>g'. round_solved 15 bob
            ((after tr_question)\<lparr>streak := \<lparr>streak_count = 4, streak_player_name = Some ''bob'',
                                            streak_player_id = Some 2\<rparr>\<rparr>) = Inr g' \<and>
         streak_count (streak g') = 5 \<and>
         filter streak_notice (drop 2 (sent g')) = [System (Streak_reached ''bob'' 5 True)]) \<and>
   (\<exists>g'. round_solved 15 bob
            ((after tr_question)\<lparr>streak := \<lparr>streak_count = 6, streak_player_name = Some ''alice'',
                                            streak_player_id = Some 1\<rparr>\<rparr>) = Inr g' \<and>
         streak_count (streak g') = 1 \<and> streak_player_id (streak g') = Some 2 \<and>
         filter streak_notice (drop 2 (sent g')) =
           [System (Streak_broken ''bob'' (Some ''alice'') 6)]) \<and>
   (\<exists>g'. round_solved 15 bob
            ((after tr_question)\<lparr>streak := \<lparr>streak_count = 5, streak_player_name = Some ''alice'',
                                            streak_player_id = Some 1\<rparr>\<rparr>) = Inr g' \<and>
         streak_count (streak g') = 1 \<and> filter streak_notice (drop 2 (sent g')) = [])"
proof -
  let ?r = "\<lparr>round_id = 1, round_question = quiz_question, start_time = 5, solved = False,
             solver = None, time_taken = None, round_hints = 0, round_streak = 0,
             ended = False\<rparr>"
  let ?g4 = "(after tr_question)\<lparr>streak := \<lparr>streak_count = 4, streak_player_name = Some ''bob'',
                                            streak_player_id = Some 2\<rparr>\<rparr>"
  let ?g6 = "(after tr_question)\<lparr>streak := \<lparr>streak_count = 6, streak_player_name = Some ''alice'',
                                            streak_player_id = Some 1\<rparr>\<rparr>"
  let ?g5 = "(after tr_question)\<lparr>streak := \<lparr>streak_count = 5, streak_player_name = Some ''alice'',
                                            streak_player_id = Some 1\<rparr>\<rparr>"
  have h4: "cur_round ?g4 = Some ?r" by (simp add: run_defs)
  have h6: "cur_round ?g6 = Some ?r" by (simp add: run_defs)
  have h5: "cur_round ?g5 = Some ?r" by (simp add: run_defs)
  have l: "length (sent (after tr_question)) = 2" by (simp add: run_defs)
  have b: "p_id bob = 2" "p_name bob = ''bob''" by (simp_all add: bob_def)
  have c: "cur_round (after tr_question) \<noteq> None" by (simp add: run_defs)
  show ?thesis
    using streak_on_solve [OF h4, of 15 bob] streak_on_solve [OF h6, of 15 bob]
          streak_on_solve [OF h5, of 15 bob]
    by (auto simp: l b c STREAK_STEPS_def)
qed


subsection \<open>The round info\<close>

text \<open>
  C6. \<^verbatim>\<open>get_round_info\<close> is a projection of the state that is safe in every reachable
  state. It reads the state only; it takes care of a game without a round where it
  computes the elapsed time, and then formats \<^verbatim>\<open>self.round.id\<close> in the waiting state
  without that care. After the first \<^verbatim>\<open>!start\<close> of a fresh game the state is waiting and
  there is no round yet: the call raises \<^verbatim>\<open>AttributeError\<close>.
\<close>

theorem get_round_info_fails_before_first_round:
  "exec quiz [(0, Chat bob ''!start'')] (init 0) = Inr (after [(0, Chat bob ''!start'')]) \<and>
   state (after [(0, Chat bob ''!start'')]) = STATE_WAITING \<and>
   cur_round (after [(0, Chat bob ''!start'')]) = None \<and>
   get_round_info 1 (after [(0, Chat bob ''!start'')]) = Inl AttributeError"
  by (simp add: run_defs)

subsection \<open>Stopping and starting\<close>

text \<open>
  C7, as amended. The handle of the current round is null in the initial state, and
  \<^verbatim>\<open>stop_game\<close>, which enters the idle or the locked state from any reachable state,
  leaves the handle as it is: an idle or locked game that was stopped after a round
  keeps the record of that round.
\<close>

theorem stop_game_keeps_round:
  assumes "exec E evs (init t0) = Inr g"
  shows "cur_round (init t0) = None \<and> state (init t0) = STATE_IDLE \<and>
    (\<exists>g'. stop_game reason lock now g = Inr g' \<and> cur_round g' = cur_round g \<and>
          state g' = (if lock then STATE_LOCKED else STATE_IDLE))"
proof -
  have "sound g" using assms by (rule reachable_sound)
  then have "cur_round g = None \<or> timer_start g \<noteq> None" by (auto simp: sound_def)
  then show ?thesis
    by (auto simp: init_def reset_hints_def reset_streak_def stop_game_def cancel_def Let_def
          broadcast_info_def get_round_info_def broadcast_def split: option.splits)
qed

theorem stop_game_keeps_round_witness:
  "\<exists>g'. stop_game (Some ''Stopped by administrator.'') True 6 (after tr_question) = Inr g' \<and>
        state g' = STATE_LOCKED \<and> map_option round_id (cur_round g') = Some 1"
proof -
  have r: "map_option round_id (cur_round (after tr_question)) = Some 1"
    by (simp add: run_defs)
  show ?thesis
    using stop_game_keeps_round
            [OF exec_tr_question, of "Some ''Stopped by administrator.''" True 6] r
    by auto
qed

text \<open>
  The administrator stops the game while round 1 is asked: the state is idle, and locked
  when the command says so, and the current round is still round 1.
\<close>

theorem idle_with_round_counterexample:
  "state (after (tr_question @ [(6, Chat alice ''!admin stop'')])) = STATE_IDLE \<and>
   cur_round (after (tr_question @ [(6, Chat alice ''!admin stop'')])) \<noteq> None \<and>
   state (after (tr_question @ [(6, Chat alice ''!admin stop lock'')])) = STATE_LOCKED \<and>
   cur_round (after (tr_question @ [(6, Chat alice ''!admin stop lock'')])) \<noteq> None"
  by (simp add: run_defs)

text \<open>
  C8, as amended. The streak state is reset when a start command begins a game (the
  delay with \<^verbatim>\<open>new_round=True\<close>). The delay that follows a finished round leaves it as it
  is, and so does the start of the next round: the streak lasts from round to round.
\<close>

theorem streak_reset_on_start_only:
  assumes "start_new_round E now g = Inr g'"
  shows "state g' = STATE_QUESTION \<and> streak g' = streak g \<and>
     streak (start_delay t False g0) = streak g0 \<and>
     streak (start_delay t True g0) =
       \<lparr>streak_count = 0, streak_player_name = None, streak_player_id = None\<rparr>"
  using assms
  by (auto simp: start_new_round_def begin_round_def Let_def reset_hints_def reset_streak_def
        broadcast_info_def get_round_info_def broadcast_def start_delay_def delay_new_round_def
        new_handle_def sleep_def split: option.splits)

theorem streak_reset_on_start_only_witness:
  "streak (after (tr_question @ [(15, Chat bob ''Paris'')])) =
     \<lparr>streak_count = 1, streak_player_name = Some ''bob'', streak_player_id = Some 2\<rparr> \<and>
   (\<exists>g'. start_new_round quiz 25 (after (tr_question @ [(15, Chat bob ''Paris'')])) = Inr g' \<and>
         state g' = STATE_QUESTION \<and>
         streak g' = \<lparr>streak_count = 1, streak_player_name = Some ''bob'',
                       streak_player_id = Some 2\<rparr>)"
proof -
  let ?g = "after (tr_question @ [(15, Chat bob ''Paris'')])"
  have s: "streak ?g = \<lparr>streak_count = 1, streak_player_name = Some ''bob'',
                         streak_player_id = Some 2\<rparr>"
    by (simp add: run_defs)
  obtain g' where g': "start_new_round quiz 25 ?g = Inr g'"
    by (simp add: run_defs)
  show ?thesis using streak_reset_on_start_only [OF g'] g' s by simp
qed

text \<open>
  Bob solves round 1 at time 15, the delay ends at time 25 and round 2 is asked: the
  streak is bob's streak of 1, not the streak of a reset.
\<close>

theorem streak_kept_counterexample:
  "state (after (tr_question @ [(15, Chat bob ''Paris''), (25, Wake 2)])) = STATE_QUESTION \<and>
   map_option round_id
     (cur_round (after (tr_question @ [(15, Chat bob ''Paris''), (25, Wake 2)]))) = Some 2 \<and>
   streak (after (tr_question @ [(15, Chat bob ''Paris''), (25, Wake 2)])) =
     \<lparr>streak_count = 1, streak_player_name = Some ''bob'', streak_player_id = Some 2\<rparr> \<and>
   streak (after (tr_question @ [(15, Chat bob ''Paris''), (25, Wake 2)])) \<noteq>
     streak (reset_streak (after (tr_question @ [(15, Chat bob ''Paris''), (25, Wake 2)])))"
  by (simp add: run_defs)

subsection \<open>Administrative commands\<close>




text \<open>
  C10. The administrative command \<^verbatim>\<open>unlock\<close> sets the state to idle from every state,
  not only from the locked one, and changes nothing else: the sleeping tasks, the
  timer handle, the current round, the hints and the streak stay as they are. Its one
  effect besides is the broadcast of the round info of the idle game.
\<close>

theorem unlock_sets_idle_only:
  assumes "exec E evs (init t0) = Inr g"
  shows "admin_unlock now g =
     Inr (g\<lparr>state := STATE_IDLE,
            sent := sent g @ [Setinfo \<lparr>info_game = Idle_view, info_timer = None\<rparr>]\<rparr>)"
proof -
  have "sound g" using assms by (rule reachable_sound)
  then have "cur_round g = None \<or> timer_start g \<noteq> None" by (auto simp: sound_def)
  then show ?thesis
    by (auto simp: admin_unlock_def broadcast_info_def get_round_info_def broadcast_def)
qed

theorem unlock_sets_idle_only_witness:
  "state (after tr_question) = STATE_QUESTION \<and>
   (\<exists>g'. admin_unlock 6 (after tr_question) = Inr g' \<and> state g' = STATE_IDLE \<and>
         tasks g' = [(1, Round_timeout, 50)] \<and> timeout g' = Some 1 \<and>
         cur_round g' = cur_round (after tr_question) \<and>
         hints g' = hints (after tr_question) \<and> streak g' = streak (after tr_question))"
proof -
  have q: "state (after tr_question) = STATE_QUESTION"
    "tasks (after tr_question) = [(1, Round_timeout, 50)]" "timeout (after tr_question) = Some 1"
    by (simp_all add: run_defs)
  show ?thesis using unlock_sets_idle_only [OF exec_tr_question, of 6] q by simp
qed


end
